theory Spec2Isabelle
  imports Complex_Main "HOL-Library.Char_ord" "HOL-Library.List_Lexorder"
    "HOL-Library.Product_Lexorder" "HOL-Library.Multiset"
begin

section \<open>Order table\<close>

text \<open>
  The program \<^verbatim>\<open>talabat_analysis.py\<close> holds its data in one pandas table. A row of
  the table is a record; a cell that pandas reports as missing (NaN, NaT) is \<open>None\<close>.
  Timestamps are nanoseconds since the epoch and calendar dates are day numbers since the
  epoch, both as unbounded integers. Amounts and averages, which the program holds in
  binary floating point, are exact rationals here. Columns of the input file other than
  the eight the program reads are not represented.
\<close>

type_synonym timestamp = int
type_synonym date = int

record order_fields =
  city :: "string option"
  order_value :: "rat option"
  delivery_time_min :: "rat option"
  delivery_fee :: "rat option"
  payment_method :: "string option"
  promo_code_used :: "string option"
  restaurant_category :: "string option"

text \<open>A row as \<^verbatim>\<open>read_csv\<close> delivers it: the time of the order is still text.\<close>

record csv_row = order_fields +
  datetime_text :: "string option"

text \<open>A row after loading: the time parsed, and the derived calendar date.\<close>

record order_row = order_fields +
  order_datetime :: "timestamp option"
  order_date :: "date option"

text \<open>A table is its column labels and its rows, in file order.\<close>

record 'r frame =
  columns :: "string list"
  rows :: "'r list"

section \<open>Errors and console output\<close>

text \<open>
  The program has no \<^verbatim>\<open>try\<close> statement: an exception raised in a stage ends the
  run. A stage is therefore a value of type \<open>'a run\<close>: what it printed or wrote so far,
  and either the exception or its result.
\<close>

datatype error =
    FileNotFoundError string
  | ParseError string
  | KeyError string
  | RenderError string

text \<open>The two series the aggregators hand to the charts.\<close>

record daily_row =
  d_order_date :: timestamp
  d_order_count :: int
  d_rolling_avg :: "rat option"

record city_row =
  c_order_date :: timestamp
  c_city :: string
  c_order_count :: int

datatype chart = Daily_chart "daily_row list" | City_chart "city_row list"

datatype event =
    Heading string
  | Started_at string
  | Completed_at string
  | Loading
  | Loaded nat nat
  | Info_printed
  | Describe_printed
  | Missing_values "(string \<times> nat) list"
  | Zero_order_values nat
  | Negative_delivery_times nat
  | Negative_delivery_fees nat
  | Total_days nat
  | Average_orders_per_day "rat option"
  | Max_orders "int option"
  | Min_orders "int option"
  | Top_days "(timestamp \<times> int) list"
  | City_totals "(string \<times> int) list"
  | City_averages "(string \<times> rat) list"
  | File_written string chart
  | Plot_saved string
  | Average_order_value "rat option"
  | Median_order_value "rat option"
  | Total_revenue rat
  | Average_delivery_time "rat option"
  | Average_delivery_fee "rat option"
  | Share string int rat
  | Generated_files "string list"

type_synonym 'a run = "event list \<times> (error + 'a)"

definition say :: "event list \<Rightarrow> unit run" where
  "say evs = (evs, Inr ())"

definition raise :: "error \<Rightarrow> 'a run" where
  "raise e = ([], Inl e)"

definition return :: "'a \<Rightarrow> 'a run" where
  "return x = ([], Inr x)"

definition bind_run :: "'a run \<Rightarrow> ('a \<Rightarrow> 'b run) \<Rightarrow> 'b run" where
  "bind_run m f =
     (case m of
        (evs, Inl e) \<Rightarrow> (evs, Inl e)
      | (evs, Inr x) \<Rightarrow> (case f x of (evs', r) \<Rightarrow> (evs @ evs', r)))"

text \<open>\<^verbatim>\<open>df[c]\<close> raises \<^verbatim>\<open>KeyError\<close> when the table has no column \<open>c\<close>.\<close>

definition need_column :: "'r frame \<Rightarrow> string \<Rightarrow> unit run" where
  "need_column df c = (if c \<in> set (columns df) then return () else raise (KeyError c))"

section \<open>Library operations used by the program\<close>

subsection \<open>Grouping and counting\<close>

text \<open>
  \<^verbatim>\<open>groupby(key).size()\<close>: one entry per distinct key, keys ascending, each with
  the number of rows that carry it. Rows whose key is missing belong to no group.
\<close>

definition groupby_size :: "('r \<Rightarrow> 'k::linorder option) \<Rightarrow> 'r list \<Rightarrow> ('k \<times> int) list" where
  "groupby_size key rs =
     map (\<lambda>k. (k, int (length (filter (\<lambda>r. key r = Some k) rs))))
         (sort (remdups (List.map_filter key rs)))"

text \<open>The arithmetic mean; of no values it is missing.\<close>

definition mean :: "rat list \<Rightarrow> rat option" where
  "mean vs = (if vs = [] then None else Some (sum_list vs / of_nat (length vs)))"

text \<open>\<^verbatim>\<open>groupby(key)[val].mean()\<close>: per key, ascending, the mean of the values.\<close>

definition groupby_mean :: "('r \<Rightarrow> 'k::linorder) \<Rightarrow> ('r \<Rightarrow> rat) \<Rightarrow> 'r list \<Rightarrow> ('k \<times> rat) list" where
  "groupby_mean key val rs =
     map (\<lambda>k. (k, sum_list (map val (filter (\<lambda>r. key r = k) rs)) /
                   of_nat (length (filter (\<lambda>r. key r = k) rs))))
         (sort (remdups (map key rs)))"

text \<open>
  \<^verbatim>\<open>sort_values(ascending=False)\<close> on a labelled series: largest value first. The
  library leaves the order of equal values open; here they keep their order.
\<close>

definition sort_values_desc :: "('k \<times> 'v::linordered_ab_group_add) list \<Rightarrow> ('k \<times> 'v) list" where
  "sort_values_desc xs = sort_key (\<lambda>p. - snd p) xs"

text \<open>The distinct values of a list in order of first appearance.\<close>

fun unique :: "'a list \<Rightarrow> 'a list" where
  "unique [] = []"
| "unique (x # xs) = x # filter (\<lambda>y. y \<noteq> x) (unique xs)"

text \<open>
  \<^verbatim>\<open>value_counts()\<close>: the distinct values that are not missing, each with the number
  of rows that carry it, most frequent first.
\<close>

definition value_counts :: "('r \<Rightarrow> 'k option) \<Rightarrow> 'r list \<Rightarrow> ('k \<times> int) list" where
  "value_counts key rs =
     sort_values_desc
       (map (\<lambda>k. (k, int (length (filter (\<lambda>r. key r = Some k) rs))))
            (unique (List.map_filter key rs)))"

subsection \<open>Rounding for display\<close>

text \<open>Rounding to the nearest integer, a tie going to the even neighbour.\<close>

definition round_half_even :: "rat \<Rightarrow> int" where
  "round_half_even x =
     (let f = \<lfloor>x\<rfloor>; d = x - of_int f
      in if d < 1 / 2 then f
         else if d > 1 / 2 then f + 1
         else if even f then f else f + 1)"

definition round_to :: "nat \<Rightarrow> rat \<Rightarrow> rat" where
  "round_to n x = of_int (round_half_even (x * 10 ^ n)) / 10 ^ n"

subsection \<open>Rolling mean\<close>

text \<open>
  \<^verbatim>\<open>rolling(window=w).mean()\<close> runs over the values once and keeps the number of
  observations in the window and their sum: the value that enters is added, the value that
  left the window is removed, and the mean is given only when the window holds at least
  \<open>minp\<close> observations (\<open>minp\<close> is the window length when it is not given).
\<close>

definition add_mean :: "rat \<Rightarrow> nat \<times> rat \<Rightarrow> nat \<times> rat" where
  "add_mean v st = (Suc (fst st), snd st + v)"

definition remove_mean :: "rat \<Rightarrow> nat \<times> rat \<Rightarrow> nat \<times> rat" where
  "remove_mean v st = (fst st - 1, snd st - v)"

definition calc_mean :: "nat \<Rightarrow> nat \<times> rat \<Rightarrow> rat option" where
  "calc_mean minp st =
     (if fst st \<ge> minp \<and> fst st > 0 then Some (snd st / of_nat (fst st)) else None)"

fun roll_mean :: "nat \<Rightarrow> nat \<Rightarrow> rat list \<Rightarrow> nat \<Rightarrow> nat \<times> rat \<Rightarrow> rat list \<Rightarrow> rat option list" where
  "roll_mean win minp vals i st [] = []"
| "roll_mean win minp vals i st (v # rest) =
     (let st1 = (if i \<ge> win then remove_mean (vals ! (i - win)) st else st);
          st2 = add_mean v st1
      in calc_mean minp st2 # roll_mean win minp vals (Suc i) st2 rest)"

definition rolling_mean :: "nat \<Rightarrow> rat list \<Rightarrow> rat option list" where
  "rolling_mean win vals = roll_mean win win vals 0 (0, 0) vals"

subsection \<open>Largest entries\<close>

text \<open>\<^verbatim>\<open>nlargest(n, col)\<close>: the \<open>n\<close> rows with the largest value, largest first.\<close>

definition nlargest :: "nat \<Rightarrow> ('r \<Rightarrow> int) \<Rightarrow> 'r list \<Rightarrow> 'r list" where
  "nlargest n col rs = take n (sort_key (\<lambda>r. - col r) rs)"

section \<open>Loader\<close>

text \<open>
  What the run can see of its surroundings: the files that \<^verbatim>\<open>read_csv\<close> can read,
  already split into rows, the paths a chart can be saved to, and the two readings of the
  wall clock.
\<close>

record world =
  files :: "string \<Rightarrow> csv_row frame option"
  can_save :: "string \<Rightarrow> bool"
  clock_start :: string
  clock_end :: string

definition read_csv :: "world \<Rightarrow> string \<Rightarrow> csv_row frame run" where
  "read_csv w file_path =
     (case files w file_path of
        None \<Rightarrow> raise (FileNotFoundError file_path)
      | Some f \<Rightarrow> return f)"

text \<open>
  \<^verbatim>\<open>pd.to_datetime\<close> on one cell. How a text is read as a time is the library's
  affair and a parameter here: \<open>parse s = None\<close> when the text \<open>s\<close> is no time.
\<close>

definition to_datetime :: "(string \<Rightarrow> timestamp option) \<Rightarrow> string option \<Rightarrow> error + timestamp option" where
  "to_datetime parse cell =
     (case cell of
        None \<Rightarrow> Inr None
      | Some s \<Rightarrow> (case parse s of None \<Rightarrow> Inl (ParseError s) | Some t \<Rightarrow> Inr (Some t)))"

definition ns_per_day :: int where
  "ns_per_day = 86400 * 1000000000"

text \<open>\<^verbatim>\<open>.dt.date\<close>: the calendar day a time falls on.\<close>

definition dt_date :: "timestamp \<Rightarrow> date" where
  "dt_date t = t div ns_per_day"

definition prepare_row :: "csv_row \<Rightarrow> timestamp option \<Rightarrow> order_row" where
  "prepare_row r t =
     \<lparr>city = city r, order_value = order_value r, delivery_time_min = delivery_time_min r,
      delivery_fee = delivery_fee r, payment_method = payment_method r,
      promo_code_used = promo_code_used r, restaurant_category = restaurant_category r,
      order_datetime = t, order_date = map_option dt_date t\<rparr>"

fun prepare_rows :: "(string \<Rightarrow> timestamp option) \<Rightarrow> csv_row list \<Rightarrow> error + order_row list" where
  "prepare_rows parse [] = Inr []"
| "prepare_rows parse (r # rs) =
     (case to_datetime parse (datetime_text r) of
        Inl e \<Rightarrow> Inl e
      | Inr t \<Rightarrow>
          (case prepare_rows parse rs of
             Inl e \<Rightarrow> Inl e
           | Inr rs' \<Rightarrow> Inr (prepare_row r t # rs')))"

definition load_and_prepare_data ::
    "world \<Rightarrow> (string \<Rightarrow> timestamp option) \<Rightarrow> string \<Rightarrow> order_row frame run" where
  "load_and_prepare_data w parse file_path =
     bind_run (say [Loading]) (\<lambda>_.
     bind_run (read_csv w file_path) (\<lambda>raw.
     bind_run (need_column raw ''order_datetime'') (\<lambda>_.
     bind_run ([], prepare_rows parse (rows raw)) (\<lambda>rs.
       let df = \<lparr>columns = (if ''order_date'' \<in> set (columns raw) then columns raw
                             else columns raw @ [''order_date'']),
                 rows = rs\<rparr>
       in bind_run (say [Loaded (length (rows df)) (length (remdups (map order_date (rows df))))])
            (\<lambda>_. return df)))))"

section \<open>Explorer\<close>

definition known_columns :: "string list" where
  "known_columns = [''order_datetime'', ''order_date'', ''city'', ''order_value'',
     ''delivery_time_min'', ''delivery_fee'', ''payment_method'', ''promo_code_used'',
     ''restaurant_category'']"

definition is_null_at :: "string \<Rightarrow> order_row \<Rightarrow> bool" where
  "is_null_at c r =
     (if c = ''order_datetime'' then order_datetime r = None
      else if c = ''order_date'' then order_date r = None
      else if c = ''city'' then city r = None
      else if c = ''order_value'' then order_value r = None
      else if c = ''delivery_time_min'' then delivery_time_min r = None
      else if c = ''delivery_fee'' then delivery_fee r = None
      else if c = ''payment_method'' then payment_method r = None
      else if c = ''promo_code_used'' then promo_code_used r = None
      else if c = ''restaurant_category'' then restaurant_category r = None
      else False)"

text \<open>\<^verbatim>\<open>df.isnull().sum()\<close>, for the columns represented here.\<close>

definition null_counts :: "order_row frame \<Rightarrow> (string \<times> nat) list" where
  "null_counts df =
     map (\<lambda>c. (c, length (filter (is_null_at c) (rows df))))
         (filter (\<lambda>c. c \<in> set known_columns) (columns df))"

text \<open>
  A stage receives the table by reference, so it returns the table as it leaves it, next
  to its own result. The schema and the summary statistics that \<^verbatim>\<open>df.info()\<close> and
  \<^verbatim>\<open>df.describe()\<close> print are not represented beyond the fact that they are printed.
\<close>

definition explore_data :: "order_row frame \<Rightarrow> order_row frame run" where
  "explore_data df =
     bind_run (say [Heading ''DATA EXPLORATION'', Info_printed, Describe_printed,
                    Missing_values (null_counts df)]) (\<lambda>_.
     bind_run (need_column df ''order_value'') (\<lambda>_.
     bind_run (say [Zero_order_values (length (filter (\<lambda>r. order_value r = Some 0) (rows df)))]) (\<lambda>_.
     bind_run (need_column df ''delivery_time_min'') (\<lambda>_.
     bind_run (say [Negative_delivery_times
                      (length (filter (\<lambda>r. case delivery_time_min r of None \<Rightarrow> False
                                             | Some v \<Rightarrow> v < 0) (rows df)))]) (\<lambda>_.
     bind_run (need_column df ''delivery_fee'') (\<lambda>_.
     bind_run (say [Negative_delivery_fees
                      (length (filter (\<lambda>r. case delivery_fee r of None \<Rightarrow> False
                                             | Some v \<Rightarrow> v < 0) (rows df)))]) (\<lambda>_.
     return df)))))))"

section \<open>Daily Aggregator\<close>

text \<open>\<^verbatim>\<open>pd.to_datetime\<close> on a calendar date: midnight of that day.\<close>

definition date_to_datetime :: "date \<Rightarrow> timestamp" where
  "date_to_datetime d = d * ns_per_day"

definition daily_orders_of :: "order_row list \<Rightarrow> daily_row list" where
  "daily_orders_of rs =
     (let grouped = groupby_size order_date rs;
          avgs = rolling_mean 7 (map (\<lambda>g. of_int (snd g)) grouped)
      in map (\<lambda>(g, a). \<lparr>d_order_date = date_to_datetime (fst g), d_order_count = snd g,
                         d_rolling_avg = a\<rparr>) (zip grouped avgs))"

definition maximum :: "int list \<Rightarrow> int option" where
  "maximum xs = (case xs of [] \<Rightarrow> None | x # ys \<Rightarrow> Some (fold max ys x))"

definition minimum :: "int list \<Rightarrow> int option" where
  "minimum xs = (case xs of [] \<Rightarrow> None | x # ys \<Rightarrow> Some (fold min ys x))"

definition top_days :: "daily_row list \<Rightarrow> daily_row list" where
  "top_days daily_orders = nlargest 5 d_order_count daily_orders"

definition analyze_daily_trends :: "order_row frame \<Rightarrow> (order_row frame \<times> daily_row list) run" where
  "analyze_daily_trends df =
     bind_run (say [Heading ''DAILY TRENDS ANALYSIS'']) (\<lambda>_.
     bind_run (need_column df ''order_date'') (\<lambda>_.
       let daily_orders = daily_orders_of (rows df);
           counts = map d_order_count daily_orders
       in bind_run (say [Total_days (length daily_orders),
                         Average_orders_per_day (map_option (round_to 1) (mean (map of_int counts))),
                         Max_orders (maximum counts),
                         Min_orders (minimum counts),
                         Top_days (map (\<lambda>r. (d_order_date r, d_order_count r))
                                       (top_days daily_orders))])
            (\<lambda>_. return (df, daily_orders))))"

section \<open>City Aggregator\<close>

definition city_stats_of :: "order_row list \<Rightarrow> (string \<times> int) list" where
  "city_stats_of rs = sort_values_desc (groupby_size city rs)"

definition date_city :: "order_row \<Rightarrow> (date \<times> string) option" where
  "date_city r =
     (case order_date r of
        None \<Rightarrow> None
      | Some d \<Rightarrow> (case city r of None \<Rightarrow> None | Some c \<Rightarrow> Some (d, c)))"

definition city_trends_of :: "order_row list \<Rightarrow> city_row list" where
  "city_trends_of rs =
     map (\<lambda>g. \<lparr>c_order_date = date_to_datetime (fst (fst g)), c_city = snd (fst g),
                c_order_count = snd g\<rparr>)
         (groupby_size date_city rs)"

definition avg_daily_city_of :: "city_row list \<Rightarrow> (string \<times> rat) list" where
  "avg_daily_city_of city_trends =
     sort_values_desc (groupby_mean c_city (\<lambda>r. of_int (c_order_count r)) city_trends)"

definition analyze_city_trends :: "order_row frame \<Rightarrow> (order_row frame \<times> city_row list) run" where
  "analyze_city_trends df =
     bind_run (say [Heading ''CITY TRENDS ANALYSIS'']) (\<lambda>_.
     bind_run (need_column df ''city'') (\<lambda>_.
     bind_run (say [City_totals (city_stats_of (rows df))]) (\<lambda>_.
     bind_run (need_column df ''order_date'') (\<lambda>_.
       let city_trends = city_trends_of (rows df);
           avg_daily_city = avg_daily_city_of city_trends
       in bind_run (say [City_averages (map (\<lambda>p. (fst p, round_to 1 (snd p))) avg_daily_city)])
            (\<lambda>_. return (df, city_trends))))))"

section \<open>Visualizer\<close>

text \<open>\<^verbatim>\<open>plt.savefig\<close>: the chart is written, or the run ends with the error.\<close>

definition savefig :: "world \<Rightarrow> string \<Rightarrow> chart \<Rightarrow> unit run" where
  "savefig w file_path c =
     (if can_save w file_path then say [File_written file_path c]
      else raise (RenderError file_path))"

definition create_visualizations :: "world \<Rightarrow> daily_row list \<Rightarrow> city_row list \<Rightarrow> unit run" where
  "create_visualizations w daily_orders city_trends =
     bind_run (say [Heading ''CREATING VISUALIZATIONS'']) (\<lambda>_.
     bind_run (savefig w ''daily_orders_trend.png'' (Daily_chart daily_orders)) (\<lambda>_.
     bind_run (say [Plot_saved ''Daily orders trend plot saved'']) (\<lambda>_.
     bind_run (savefig w ''city_trends.png'' (City_chart city_trends)) (\<lambda>_.
     say [Plot_saved ''City trends plot saved'']))))"

section \<open>Insights Reporter\<close>

definition median :: "rat list \<Rightarrow> rat option" where
  "median vs =
     (let xs = sort vs; n = length xs
      in if n = 0 then None
         else if odd n then Some (xs ! (n div 2))
         else Some ((xs ! (n div 2 - 1) + xs ! (n div 2)) / 2))"

text \<open>One printed line per category: the count and its share of all rows, in percent.\<close>

definition share_lines :: "order_row frame \<Rightarrow> (string \<times> int) list \<Rightarrow> event list" where
  "share_lines df cnts =
     map (\<lambda>p. Share (fst p) (snd p)
                 (round_to 1 (of_int (snd p) / of_nat (length (rows df)) * 100))) cnts"

definition analyze_business_insights :: "order_row frame \<Rightarrow> order_row frame run" where
  "analyze_business_insights df =
     bind_run (say [Heading ''BUSINESS INSIGHTS'', Heading ''Order Value Analysis'']) (\<lambda>_.
     bind_run (need_column df ''order_value'') (\<lambda>_.
     bind_run (say [Average_order_value
                      (map_option (round_to 2) (mean (List.map_filter order_value (rows df)))),
                    Median_order_value
                      (map_option (round_to 2) (median (List.map_filter order_value (rows df)))),
                    Total_revenue
                      (round_to 2 (sum_list (List.map_filter order_value (rows df)))),
                    Heading ''Delivery Analysis'']) (\<lambda>_.
     bind_run (need_column df ''delivery_time_min'') (\<lambda>_.
     bind_run (say [Average_delivery_time
                      (map_option (round_to 1)
                         (mean (List.map_filter delivery_time_min (rows df))))]) (\<lambda>_.
     bind_run (need_column df ''delivery_fee'') (\<lambda>_.
     bind_run (say [Average_delivery_fee
                      (map_option (round_to 2) (mean (List.map_filter delivery_fee (rows df)))),
                    Heading ''Payment Methods'']) (\<lambda>_.
     bind_run (need_column df ''payment_method'') (\<lambda>_.
     bind_run (say (share_lines df (value_counts payment_method (rows df)))) (\<lambda>_.
     bind_run (need_column df ''promo_code_used'') (\<lambda>_.
     bind_run (say (Heading ''Promo Code Usage'' #
                    share_lines df (value_counts promo_code_used (rows df)))) (\<lambda>_.
     bind_run (say [Heading ''Top Restaurant Categories'']) (\<lambda>_.
     bind_run (need_column df ''restaurant_category'') (\<lambda>_.
     bind_run (say (share_lines df (take 5 (value_counts restaurant_category (rows df))))) (\<lambda>_.
     return df))))))))))))))"

section \<open>The pipeline\<close>

definition main :: "world \<Rightarrow> (string \<Rightarrow> timestamp option) \<Rightarrow> order_row frame run" where
  "main w parse =
     bind_run (say [Heading ''TALABAT UAE ORDERS DATA ANALYSIS'', Started_at (clock_start w)]) (\<lambda>_.
     bind_run (load_and_prepare_data w parse ''talabat_uae_orders_dataset.csv'') (\<lambda>df.
     bind_run (explore_data df) (\<lambda>df.
     bind_run (analyze_daily_trends df) (\<lambda>(df, daily_orders).
     bind_run (analyze_city_trends df) (\<lambda>(df, city_trends).
     bind_run (create_visualizations w daily_orders city_trends) (\<lambda>_.
     bind_run (analyze_business_insights df) (\<lambda>df.
     bind_run (say [Heading ''ANALYSIS COMPLETED'',
                    Generated_files [''daily_orders_trend.png'', ''city_trends.png''],
                    Completed_at (clock_end w)]) (\<lambda>_.
     return df))))))))"

section \<open>Example tables\<close>

text \<open>A loaded row made from the time of the order, the city and the payment method.\<close>

definition example_order :: "timestamp \<Rightarrow> string option \<Rightarrow> string option \<Rightarrow> order_row" where
  "example_order t c p =
     \<lparr>city = c, order_value = Some 40, delivery_time_min = Some 30, delivery_fee = Some 5,
      payment_method = p, promo_code_used = Some ''No'', restaurant_category = Some ''Grill'',
      order_datetime = Some t, order_date = Some (dt_date t)\<rparr>"

text \<open>Nine orders on eight consecutive days, two of them on the seventh day.\<close>

definition week_table :: "order_row frame" where
  "week_table =
     \<lparr>columns = known_columns,
      rows = map (\<lambda>d. example_order (d * ns_per_day + 3600) (Some ''Dubai'') (Some ''Cash''))
                 [0, 1, 2, 3, 4, 5, 6, 6, 7]\<rparr>"

text \<open>Two orders, two days apart: no order on the day between.\<close>

definition gap_table :: "order_row frame" where
  "gap_table =
     \<lparr>columns = known_columns,
      rows = [example_order 3600 (Some ''Dubai'') (Some ''Cash''),
              example_order (2 * ns_per_day + 3600) (Some ''Dubai'') (Some ''Card'')]\<rparr>"

text \<open>Two orders, the second without a city and without a payment method.\<close>

definition missing_table :: "order_row frame" where
  "missing_table =
     \<lparr>columns = known_columns,
      rows = [example_order 3600 (Some ''Dubai'') (Some ''Cash''),
              example_order 7200 None None]\<rparr>"

text \<open>Five orders in two cities on three days.\<close>

definition city_table :: "order_row frame" where
  "city_table =
     \<lparr>columns = known_columns,
      rows = [example_order 3600 (Some ''Dubai'') (Some ''Cash''),
              example_order 7200 (Some ''Ajman'') (Some ''Card''),
              example_order (ns_per_day + 60) (Some ''Dubai'') (Some ''Card''),
              example_order (2 * ns_per_day + 60) (Some ''Dubai'') (Some ''Cash''),
              example_order (2 * ns_per_day + 120) (Some ''Dubai'') (Some ''Cash'')]\<rparr>"

text \<open>Surroundings of a run: an input file of two rows, and charts that can be saved.\<close>

definition dataset :: string where
  "dataset = ''talabat_uae_orders_dataset.csv''"

definition example_parse :: "string \<Rightarrow> timestamp option" where
  "example_parse s =
     (if s = ''1970-01-01 01:00:00'' then Some 3600000000000
      else if s = ''1970-01-03 00:00:01'' then Some (2 * ns_per_day + 1000000000)
      else None)"

definition example_csv_row :: "string \<Rightarrow> string \<Rightarrow> csv_row" where
  "example_csv_row t c =
     \<lparr>city = Some c, order_value = Some 40, delivery_time_min = Some 30, delivery_fee = Some 5,
      payment_method = Some ''Cash'', promo_code_used = Some ''No'',
      restaurant_category = Some ''Grill'', datetime_text = Some t\<rparr>"

definition csv_columns :: "string list" where
  "csv_columns = [''order_datetime'', ''city'', ''order_value'', ''delivery_time_min'',
     ''delivery_fee'', ''payment_method'', ''promo_code_used'', ''restaurant_category'']"

definition example_csv :: "csv_row frame" where
  "example_csv =
     \<lparr>columns = csv_columns,
      rows = [example_csv_row ''1970-01-01 01:00:00'' ''Dubai'',
              example_csv_row ''1970-01-03 00:00:01'' ''Ajman'']\<rparr>"

definition example_world :: world where
  "example_world =
     \<lparr>files = (\<lambda>p. if p = dataset then Some example_csv else None),
      can_save = (\<lambda>p. True),
      clock_start = ''2024-05-01 09:00:00'',
      clock_end = ''2024-05-01 09:00:07''\<rparr>"






section \<open>Statements of the specification that are compared with the program\<close>

text \<open>
  The daily series has an entry for every calendar day from the first to the last day
  of the table, in order.
\<close>

definition every_day_in_range :: "order_row list \<Rightarrow> daily_row list \<Rightarrow> bool" where
  "every_day_in_range rs daily_orders =
     (case List.map_filter order_date rs of
        [] \<Rightarrow> daily_orders = []
      | d # ds \<Rightarrow>
          map d_order_date daily_orders = map date_to_datetime [fold min ds d..fold max ds d])"






section \<open>Auxiliary facts\<close>

subsection \<open>Runs\<close>


lemma bind_run_Inl: "snd m = Inl e \<Longrightarrow> bind_run m f = (fst m, Inl e)"
  by (cases m) (simp add: bind_run_def)

lemma bind_run_Inr: "snd m = Inr x \<Longrightarrow> bind_run m f = (fst m @ fst (f x), snd (f x))"
  by (cases m) (simp add: bind_run_def split: prod.splits)

lemma bind_run_say: "bind_run (say evs) f = (evs @ fst (f ()), snd (f ()))"
  by (simp add: bind_run_def say_def split: prod.splits)

lemma bind_run_return: "bind_run (return x) f = f x"
  by (simp add: bind_run_def return_def split: prod.splits)

lemma bind_run_raise: "bind_run (raise e) f = ([], Inl e)"
  by (simp add: bind_run_def raise_def)

lemma bind_run_need_column:
  "bind_run (need_column df c) f = (if c \<in> set (columns df) then f () else ([], Inl (KeyError c)))"
  by (simp add: need_column_def bind_run_return bind_run_raise)

lemmas run_simps = bind_run_say bind_run_return bind_run_raise bind_run_need_column

lemma analyze_daily_trends_result:
  "snd (analyze_daily_trends df) =
     (if ''order_date'' \<in> set (columns df) then Inr (df, daily_orders_of (rows df))
      else Inl (KeyError ''order_date''))"
  by (simp add: analyze_daily_trends_def run_simps Let_def return_def)

lemma analyze_daily_trends_events:
  "''order_date'' \<in> set (columns df) \<Longrightarrow>
   fst (analyze_daily_trends df) =
     [Heading ''DAILY TRENDS ANALYSIS'',
      Total_days (length (daily_orders_of (rows df))),
      Average_orders_per_day
        (map_option (round_to 1) (mean (map of_int (map d_order_count (daily_orders_of (rows df)))))),
      Max_orders (maximum (map d_order_count (daily_orders_of (rows df)))),
      Min_orders (minimum (map d_order_count (daily_orders_of (rows df)))),
      Top_days (map (\<lambda>r. (d_order_date r, d_order_count r)) (top_days (daily_orders_of (rows df))))]"
  by (simp add: analyze_daily_trends_def run_simps Let_def return_def)

lemma set_map_filter: "set (List.map_filter f xs) = {y. \<exists>x\<in>set xs. f x = Some y}"
  by (induction xs) (auto simp: map_filter_simps split: option.splits)

lemma groupby_size_keys:
  "map fst (groupby_size key rs) = sort (remdups (List.map_filter key rs))"
  by (simp add: groupby_size_def comp_def)

lemma groupby_size_counts:
  "map snd (groupby_size key rs) =
     map (\<lambda>k. int (length (filter (\<lambda>r. key r = Some k) rs))) (map fst (groupby_size key rs))"
  by (simp add: groupby_size_def comp_def)

lemma set_groupby_size_keys:
  "set (map fst (groupby_size key rs)) = {k. \<exists>r\<in>set rs. key r = Some k}"
  by (auto simp: groupby_size_keys set_map_filter)

lemma sorted_groupby_size_keys: "sorted_wrt (<) (map fst (groupby_size key rs))"
  by (simp add: groupby_size_keys strict_sorted_iff)

lemma sum_group_sizes:
  assumes "finite K" and "\<forall>r\<in>set rs. \<forall>k. key r = Some k \<longrightarrow> k \<in> K"
  shows "(\<Sum>k\<in>K. int (length (filter (\<lambda>r. key r = Some k) rs))) =
         int (length (filter (\<lambda>r. key r \<noteq> None) rs))"
  using assms(2)
proof (induction rs)
  case Nil
  then show ?case by simp
next
  case (Cons r rs)
  then have IH: "(\<Sum>k\<in>K. int (length (filter (\<lambda>r. key r = Some k) rs))) =
         int (length (filter (\<lambda>r. key r \<noteq> None) rs))" by simp
  show ?case
  proof (cases "key r")
    case None
    then show ?thesis using IH by simp
  next
    case (Some k0)
    then have mem: "k0 \<in> K" using Cons.prems by simp
    have "(\<Sum>k\<in>K. int (length (filter (\<lambda>r. key r = Some k) (r # rs)))) =
          (\<Sum>k\<in>K. int (length (filter (\<lambda>r. key r = Some k) rs)) + (if k = k0 then 1 else 0))"
      by (rule sum.cong) (auto simp: Some)
    also have "\<dots> = (\<Sum>k\<in>K. int (length (filter (\<lambda>r. key r = Some k) rs))) + 1"
      using assms(1) mem by (simp add: sum.distrib)
    finally show ?thesis using IH Some by simp
  qed
qed

lemma sum_list_group_sizes:
  assumes "distinct ks" and "set ks = {k. \<exists>r\<in>set rs. key r = Some k}"
  shows "sum_list (map (\<lambda>k. int (length (filter (\<lambda>r. key r = Some k) rs))) ks) =
         int (length (filter (\<lambda>r. key r \<noteq> None) rs))"
proof -
  have "sum_list (map (\<lambda>k. int (length (filter (\<lambda>r. key r = Some k) rs))) ks) =
        (\<Sum>k\<in>set ks. int (length (filter (\<lambda>r. key r = Some k) rs)))"
    using assms(1) by (rule sum_list_distinct_conv_sum_set)
  also have "\<dots> = int (length (filter (\<lambda>r. key r \<noteq> None) rs))"
    by (rule sum_group_sizes, simp, use assms(2) in blast)
  finally show ?thesis .
qed

lemma sum_groupby_size:
  "sum_list (map snd (groupby_size key rs)) = int (length (filter (\<lambda>r. key r \<noteq> None) rs))"
proof -
  have "sum_list (map snd (groupby_size key rs)) =
        sum_list (map (\<lambda>k. int (length (filter (\<lambda>r. key r = Some k) rs)))
                      (sort (remdups (List.map_filter key rs))))"
    by (simp add: groupby_size_def comp_def)
  also have "\<dots> = int (length (filter (\<lambda>r. key r \<noteq> None) rs))"
    by (rule sum_list_group_sizes) (auto simp: set_map_filter)
  finally show ?thesis .
qed

lemma sum_list_sort_values_desc:
  "sum_list (map snd (sort_values_desc xs)) = sum_list (map snd xs)"
proof -
  have "mset (map snd (sort_values_desc xs)) = mset (map snd xs)"
    by (simp add: sort_values_desc_def)
  then have "sum_mset (mset (map snd (sort_values_desc xs))) = sum_mset (mset (map snd xs))"
    by (rule arg_cong)
  then show ?thesis by (simp only: sum_mset_sum_list)
qed





subsection \<open>The rolling mean\<close>


lemma roll_mean_window:
  assumes "0 < win"
  shows "vals = pre @ rest \<Longrightarrow> length pre = i \<Longrightarrow>
     st = (min i win, sum_list (drop (i - win) pre)) \<Longrightarrow>
     roll_mean win minp vals i st rest =
       map (\<lambda>k. calc_mean minp (min (Suc k) win, sum_list (drop (Suc k - win) (take (Suc k) vals))))
           [i..<i + length rest]"
proof (induction rest arbitrary: pre i st)
  case Nil
  then show ?case by simp
next
  case (Cons v rest)
  let ?st1 = "if i \<ge> win then remove_mean (vals ! (i - win)) st else st"
  let ?st2 = "add_mean v ?st1"
  have tk: "take (Suc i) vals = pre @ [v]" using Cons.prems by simp
  have st2: "?st2 = (min (Suc i) win, sum_list (drop (Suc i - win) (pre @ [v])))"
  proof (cases "i \<ge> win")
    case True
    have lt: "i - win < length pre" using True assms Cons.prems by simp
    have nth: "vals ! (i - win) = pre ! (i - win)"
      using lt Cons.prems by (simp add: nth_append)
    have dr: "drop (i - win) pre = pre ! (i - win) # drop (Suc (i - win)) pre"
      using lt by (simp add: Cons_nth_drop_Suc)
    have s: "Suc i - win = Suc (i - win)" using True by simp
    have stv: "st = (win, pre ! (i - win) + sum_list (drop (Suc (i - win)) pre))"
      using True Cons.prems(3) dr by (simp add: min_def)
    have "?st2 = add_mean v (remove_mean (pre ! (i - win)) st)"
      using True nth by simp
    also have "\<dots> = (win, sum_list (drop (Suc (i - win)) pre) + v)"
      using assms by (simp add: stv add_mean_def remove_mean_def)
    also have "\<dots> = (min (Suc i) win, sum_list (drop (Suc i - win) (pre @ [v])))"
      using True lt by (simp add: s min_def)
    finally show ?thesis .
  next
    case False
    then show ?thesis using Cons.prems
      by (simp add: add_mean_def min_def)
  qed
  have rec: "roll_mean win minp vals (Suc i) ?st2 rest =
       map (\<lambda>k. calc_mean minp (min (Suc k) win, sum_list (drop (Suc k - win) (take (Suc k) vals))))
           [Suc i..<Suc i + length rest]"
    by (rule Cons.IH [of "pre @ [v]"]) (use Cons.prems st2 in simp_all)
  have upt: "[i..<i + length (v # rest)] = i # [Suc i..<Suc i + length rest]"
    using upt_conv_Cons [of i "i + length (v # rest)"] by simp
  show ?case
    unfolding upt using rec st2 tk by (simp add: Let_def)
qed

lemma rolling_mean_nth:
  assumes "0 < win" "i < length vals"
  shows "rolling_mean win vals ! i =
     (if Suc i < win then None
      else Some (sum_list (take win (drop (Suc i - win) vals)) / of_nat win))"
proof -
  have "rolling_mean win vals =
       map (\<lambda>k. calc_mean win (min (Suc k) win, sum_list (drop (Suc k - win) (take (Suc k) vals))))
           [0..<0 + length vals]"
    unfolding rolling_mean_def by (rule roll_mean_window [OF assms(1), of _ "[]"]) simp_all
  moreover have "drop (Suc i - win) (take (Suc i) vals) = take win (drop (Suc i - win) vals)"
    if "Suc i \<ge> win"
    using that by (simp add: drop_take)
  ultimately show ?thesis using assms
    by (auto simp: calc_mean_def min_def)
qed

lemma length_rolling_mean: "0 < win \<Longrightarrow> length (rolling_mean win vals) = length vals"
  using roll_mean_window [of win vals "[]" vals 0 "(0,0)" win]
  by (simp add: rolling_mean_def)



subsection \<open>The daily series\<close>

lemma length_daily_orders_of:
  "length (daily_orders_of rs) = length (groupby_size order_date rs)"
  by (simp add: daily_orders_of_def Let_def length_rolling_mean)

lemma daily_orders_of_nth:
  assumes "i < length (groupby_size order_date rs)"
  shows "daily_orders_of rs ! i =
     \<lparr>d_order_date = date_to_datetime (fst (groupby_size order_date rs ! i)),
      d_order_count = snd (groupby_size order_date rs ! i),
      d_rolling_avg = rolling_mean 7 (map (\<lambda>g. of_int (snd g)) (groupby_size order_date rs)) ! i\<rparr>"
  using assms by (simp add: daily_orders_of_def Let_def length_rolling_mean)

lemma daily_order_counts:
  "map d_order_count (daily_orders_of rs) = map snd (groupby_size order_date rs)"
  by (rule nth_equalityI) (simp_all add: length_daily_orders_of daily_orders_of_nth)

lemma daily_order_dates:
  "map d_order_date (daily_orders_of rs) =
     map date_to_datetime (map fst (groupby_size order_date rs))"
  by (rule nth_equalityI) (simp_all add: length_daily_orders_of daily_orders_of_nth)

lemma daily_rolling_avgs:
  "map d_rolling_avg (daily_orders_of rs) =
     rolling_mean 7 (map (\<lambda>r. of_int (d_order_count r)) (daily_orders_of rs))"
proof -
  have "map (\<lambda>r. (of_int (d_order_count r) :: rat)) (daily_orders_of rs) =
        map (\<lambda>g. of_int (snd g)) (groupby_size order_date rs)"
    using daily_order_counts [of rs, THEN arg_cong, of "map of_int"]
    by (simp add: comp_def)
  then show ?thesis
    by (intro nth_equalityI)
       (simp_all add: length_daily_orders_of daily_orders_of_nth length_rolling_mean)
qed

lemma sum_list_window:
  assumes "k + n \<le> length xs"
  shows "sum_list (take n (drop k xs)) = (\<Sum>j = k..<k + n. (xs ! j :: rat))"
proof -
  have "sum_list (take n (drop k xs)) = (\<Sum>j = 0..<n. take n (drop k xs) ! j)"
    using assms by (simp add: sum_list_sum_nth)
  also have "\<dots> = (\<Sum>j = 0..<n. xs ! (k + j))"
    using assms by (intro sum.cong) simp_all
  also have "\<dots> = (\<Sum>j = k..<k + n. xs ! j)"
    using sum.shift_bounds_nat_ivl [of "\<lambda>j. xs ! j" 0 k n] by (simp add: add.commute)
  finally show ?thesis .
qed

section \<open>Rolling average (C1)\<close>

text \<open>
  C1. In the daily series that the Daily Aggregator returns, whose dates ascend, the rolling
  average at index \<open>i\<close> (counted from 0) is missing for every \<open>i < 6\<close>, and for every
  \<open>i \<ge> 6\<close> it is the arithmetic mean of the order counts at the indices \<open>i - 6\<close> to
  \<open>i\<close>, both included.
\<close>

theorem rolling_average_window:
  assumes "snd (analyze_daily_trends df) = Inr (df', daily_orders)"
    and "i < length daily_orders"
  shows "(i < 6 \<longrightarrow> d_rolling_avg (daily_orders ! i) = None) \<and>
         (6 \<le> i \<longrightarrow> d_rolling_avg (daily_orders ! i) =
             Some ((\<Sum>j = i - 6..i. of_int (d_order_count (daily_orders ! j))) / 7)) \<and>
         sorted_wrt (<) (map d_order_date daily_orders)"
proof -
  have d: "daily_orders = daily_orders_of (rows df)"
    using assms(1) by (auto simp: analyze_daily_trends_result split: if_splits)
  let ?vals = "map (\<lambda>r. of_int (d_order_count r) :: rat) daily_orders"
  have len: "i < length ?vals" using assms(2) by simp
  have "d_rolling_avg (daily_orders ! i) = map d_rolling_avg daily_orders ! i"
    using assms(2) by simp
  also have "\<dots> = rolling_mean 7 ?vals ! i"
    by (simp only: d daily_rolling_avgs)
  also have "\<dots> = (if Suc i < 7 then None
      else Some (sum_list (take 7 (drop (Suc i - 7) ?vals)) / of_nat 7))"
    using len by (intro rolling_mean_nth) simp_all
  finally have avg: "d_rolling_avg (daily_orders ! i) =
      (if i < 6 then None else Some (sum_list (take 7 (drop (i - 6) ?vals)) / 7))"
    by simp
  have win: "sum_list (take 7 (drop (i - 6) ?vals)) =
      (\<Sum>j = i - 6..i. of_int (d_order_count (daily_orders ! j)))" if "6 \<le> i"
  proof -
    have "sum_list (take 7 (drop (i - 6) ?vals)) = (\<Sum>j = i - 6..<i - 6 + 7. ?vals ! j)"
      using that len by (intro sum_list_window) simp
    also have "\<dots> = (\<Sum>j = i - 6..i. ?vals ! j)"
      using that by (intro sum.cong) auto
    also have "\<dots> = (\<Sum>j = i - 6..i. of_int (d_order_count (daily_orders ! j)))"
      using assms(2) by (intro sum.cong) simp_all
    finally show ?thesis .
  qed
  have "sorted_wrt (<) (map fst (groupby_size order_date (rows df)))"
    by (rule sorted_groupby_size_keys)
  then have srt: "sorted_wrt (<) (map d_order_date daily_orders)"
    unfolding d daily_order_dates
    by (simp add: sorted_wrt_map date_to_datetime_def ns_per_day_def)
  show ?thesis using avg win srt by simp
qed


theorem rolling_average_window_witness:
  "snd (analyze_daily_trends week_table) = Inr (week_table, daily_orders_of (rows week_table)) \<and>
   6 < length (daily_orders_of (rows week_table)) \<and>
   d_rolling_avg (daily_orders_of (rows week_table) ! 6) =
     Some ((\<Sum>j = 0..6. of_int (d_order_count (daily_orders_of (rows week_table) ! j))) / 7) \<and>
   d_rolling_avg (daily_orders_of (rows week_table) ! 6) = Some (8 / 7)"
proof -
  have h1: "snd (analyze_daily_trends week_table) =
      Inr (week_table, daily_orders_of (rows week_table))"
    by (simp add: analyze_daily_trends_result week_table_def known_columns_def)
  have h2: "6 < length (daily_orders_of (rows week_table))"
    by code_simp
  have v: "d_rolling_avg (daily_orders_of (rows week_table) ! 6) = Some (8 / 7)"
    by code_simp
  show ?thesis
    using rolling_average_window [OF h1 h2] h1 h2 v by simp
qed

section \<open>Dates of the daily series (C2)\<close>

lemma distinct_groupby_size_keys: "distinct (map fst (groupby_size key rs))"
  by (simp add: groupby_size_keys)

lemma groupby_size_nth:
  assumes "i < length (groupby_size key rs)"
  shows "snd (groupby_size key rs ! i) =
     int (length (filter (\<lambda>r. key r = Some (fst (groupby_size key rs ! i))) rs))"
  using assms by (simp add: groupby_size_def)

lemma groupby_size_positive:
  assumes "g \<in> set (groupby_size key rs)"
  shows "0 < snd g"
proof -
  have "fst g \<in> set (map fst (groupby_size key rs))" using assms by simp
  then obtain r where r: "r \<in> set rs" "key r = Some (fst g)"
    unfolding set_groupby_size_keys by blast
  then have "filter (\<lambda>r. key r = Some (fst g)) rs \<noteq> []"
    by (auto simp: filter_empty_conv)
  moreover have "snd g = int (length (filter (\<lambda>r. key r = Some (fst g)) rs))"
    using assms by (auto simp: groupby_size_def)
  ultimately show ?thesis by simp
qed

lemma sorted_hd_Min:
  fixes xs :: "'a::linorder list"
  assumes "sorted xs" "xs \<noteq> []"
  shows "hd xs = Min (set xs)"
  using assms by (cases xs) (auto intro!: Min_eqI [symmetric])

lemma sorted_last_Max:
  fixes xs :: "'a::linorder list"
  assumes "sorted xs" "xs \<noteq> []"
  shows "last xs = Max (set xs)"
  using assms
proof (induction xs)
  case Nil
  then show ?case by simp
next
  case (Cons x xs)
  show ?case
  proof (cases "xs = []")
    case True
    then show ?thesis by simp
  next
    case False
    then have "last xs = Max (set xs)" using Cons by simp
    moreover have "last xs \<in> set xs" using False by simp
    then have "x \<le> last xs" using Cons.prems by simp
    ultimately show ?thesis using False by (simp add: max_def)
  qed
qed

lemma date_to_datetime_inj: "date_to_datetime a = date_to_datetime b \<longleftrightarrow> a = b"
  by (simp add: date_to_datetime_def ns_per_day_def)

lemma date_to_datetime_less: "date_to_datetime a < date_to_datetime b \<longleftrightarrow> a < b"
  by (simp add: date_to_datetime_def ns_per_day_def)

text \<open>
  C2, as the program has it. The daily series has exactly one entry for each distinct date
  that occurs in the order table: its dates are strictly ascending, hence without
  duplicates, the first is the earliest and the last is the latest date of the table, and
  each entry counts the rows of its date, of which there is at least one. A calendar day
  inside the range on which no order was placed has no entry.
\<close>

theorem daily_series_dates:
  assumes "snd (analyze_daily_trends df) = Inr (df', daily_orders)"
  shows "set (map d_order_date daily_orders) =
           date_to_datetime ` {d. \<exists>r\<in>set (rows df). order_date r = Some d} \<and>
         sorted_wrt (<) (map d_order_date daily_orders) \<and>
         distinct (map d_order_date daily_orders) \<and>
         (daily_orders \<noteq> [] \<longrightarrow>
            d_order_date (hd daily_orders) =
              date_to_datetime (Min {d. \<exists>r\<in>set (rows df). order_date r = Some d}) \<and>
            d_order_date (last daily_orders) =
              date_to_datetime (Max {d. \<exists>r\<in>set (rows df). order_date r = Some d})) \<and>
         (\<forall>x\<in>set daily_orders.
            0 < d_order_count x \<and>
            d_order_count x =
              int (length (filter (\<lambda>r. map_option date_to_datetime (order_date r) =
                                         Some (d_order_date x)) (rows df))))"
proof -
  let ?g = "groupby_size order_date (rows df)"
  let ?D = "{d. \<exists>r\<in>set (rows df). order_date r = Some d}"
  have d: "daily_orders = daily_orders_of (rows df)"
    using assms by (auto simp: analyze_daily_trends_result split: if_splits)
  have dates: "map d_order_date daily_orders = map date_to_datetime (map fst ?g)"
    by (simp only: d daily_order_dates)
  have keys: "set (map fst ?g) = ?D" by (rule set_groupby_size_keys)
  have s1: "set (map d_order_date daily_orders) = date_to_datetime ` ?D"
    unfolding dates by (simp only: set_map [of date_to_datetime] keys)
  have srt: "sorted_wrt (<) (map d_order_date daily_orders)"
    unfolding dates using sorted_groupby_size_keys [of order_date "rows df"]
    by (simp add: sorted_wrt_map date_to_datetime_less)
  have dist: "distinct (map d_order_date daily_orders)"
    using srt by (simp add: strict_sorted_iff)
  have ends: "d_order_date (hd daily_orders) = date_to_datetime (Min ?D) \<and>
              d_order_date (last daily_orders) = date_to_datetime (Max ?D)"
    if ne: "daily_orders \<noteq> []"
  proof -
    have gne: "map fst ?g \<noteq> []" using ne arg_cong [OF dates, of length] by auto
    have sk: "sorted (map fst ?g)"
      using sorted_groupby_size_keys [of order_date "rows df"] by (simp add: strict_sorted_iff)
    have "d_order_date (hd daily_orders) = hd (map d_order_date daily_orders)"
      using ne by (simp add: hd_map)
    also have "\<dots> = date_to_datetime (hd (map fst ?g))"
      unfolding dates using gne by (simp add: hd_map)
    also have "\<dots> = date_to_datetime (Min ?D)"
      using sorted_hd_Min [OF sk gne] keys by simp
    finally have h: "d_order_date (hd daily_orders) = date_to_datetime (Min ?D)" .
    have "d_order_date (last daily_orders) = last (map d_order_date daily_orders)"
      using ne by (simp add: last_map)
    also have "\<dots> = date_to_datetime (last (map fst ?g))"
      unfolding dates using gne by (simp add: last_map)
    also have "\<dots> = date_to_datetime (Max ?D)"
      using sorted_last_Max [OF sk gne] keys by simp
    finally show ?thesis using h by simp
  qed
  have cnt: "0 < d_order_count x \<and>
            d_order_count x =
              int (length (filter (\<lambda>r. map_option date_to_datetime (order_date r) =
                                         Some (d_order_date x)) (rows df)))"
    if xin: "x \<in> set daily_orders" for x
  proof -
    obtain i where i: "i < length daily_orders" "x = daily_orders ! i"
      using xin by (auto simp: in_set_conv_nth)
    then have ig: "i < length ?g" by (simp add: d length_daily_orders_of)
    have xd: "d_order_date x = date_to_datetime (fst (?g ! i))"
      and xc: "d_order_count x = snd (?g ! i)"
      using i ig by (simp_all add: d daily_orders_of_nth)
    have pos: "0 < snd (?g ! i)"
      using ig by (intro groupby_size_positive [of _ order_date "rows df"]) simp
    have "filter (\<lambda>r. map_option date_to_datetime (order_date r) = Some (d_order_date x))
             (rows df) =
          filter (\<lambda>r. order_date r = Some (fst (?g ! i))) (rows df)"
      by (rule filter_cong) (auto simp: xd date_to_datetime_inj)
    then have "d_order_count x =
          int (length (filter (\<lambda>r. map_option date_to_datetime (order_date r) =
                                     Some (d_order_date x)) (rows df)))"
      using groupby_size_nth [OF ig] xc by (simp only:)
    then show ?thesis using pos xc by simp
  qed
  show ?thesis using s1 srt dist ends cnt by blast
qed

text \<open>
  C2 as stated asks for every calendar day of the range. With orders on day 0 and day 2
  only, the series has two entries and none for day 1.
\<close>

theorem daily_series_gap_counterexample:
  "snd (analyze_daily_trends gap_table) = Inr (gap_table, daily_orders_of (rows gap_table)) \<and>
   map d_order_date (daily_orders_of (rows gap_table)) = [0, 2 * ns_per_day] \<and>
   \<not> every_day_in_range (rows gap_table) (daily_orders_of (rows gap_table))"
  by code_simp

theorem daily_series_dates_witness:
  "snd (analyze_daily_trends gap_table) = Inr (gap_table, daily_orders_of (rows gap_table)) \<and>
   daily_orders_of (rows gap_table) \<noteq> [] \<and>
   set (map d_order_date (daily_orders_of (rows gap_table))) =
     date_to_datetime ` {d. \<exists>r\<in>set (rows gap_table). order_date r = Some d} \<and>
   d_order_date (last (daily_orders_of (rows gap_table))) =
     date_to_datetime (Max {d. \<exists>r\<in>set (rows gap_table). order_date r = Some d}) \<and>
   list_all (\<lambda>x. 0 < d_order_count x) (daily_orders_of (rows gap_table))"
proof -
  have h1: "snd (analyze_daily_trends gap_table) =
      Inr (gap_table, daily_orders_of (rows gap_table))"
    by (simp add: analyze_daily_trends_result gap_table_def known_columns_def)
  have h2: "daily_orders_of (rows gap_table) \<noteq> []"
    by code_simp
  show ?thesis
    unfolding list_all_iff using daily_series_dates [OF h1] h1 h2 by blast
qed

subsection \<open>The city stage and the insights stage\<close>

lemma analyze_city_trends_result:
  "snd (analyze_city_trends df) =
     (if ''city'' \<in> set (columns df)
      then if ''order_date'' \<in> set (columns df) then Inr (df, city_trends_of (rows df))
           else Inl (KeyError ''order_date'')
      else Inl (KeyError ''city''))"
  by (simp add: analyze_city_trends_def run_simps Let_def return_def)

lemma analyze_city_trends_events:
  "fst (analyze_city_trends df) =
     (if ''city'' \<in> set (columns df)
      then Heading ''CITY TRENDS ANALYSIS'' # City_totals (city_stats_of (rows df)) #
           (if ''order_date'' \<in> set (columns df)
            then [City_averages (map (\<lambda>p. (fst p, round_to 1 (snd p)))
                                     (avg_daily_city_of (city_trends_of (rows df))))]
            else [])
      else [Heading ''CITY TRENDS ANALYSIS''])"
  by (simp add: analyze_city_trends_def run_simps Let_def return_def)

lemma analyze_business_insights_result:
  "snd (analyze_business_insights df) = Inr df' \<longleftrightarrow>
     df' = df \<and> set [''order_value'', ''delivery_time_min'', ''delivery_fee'',
                      ''payment_method'', ''promo_code_used'', ''restaurant_category'']
               \<subseteq> set (columns df)"
  by (auto simp: analyze_business_insights_def run_simps return_def)


lemma set_sort_values_desc: "set (sort_values_desc xs) = set xs"
  by (simp add: sort_values_desc_def)

lemma length_sort_values_desc: "length (sort_values_desc xs) = length xs"
  by (simp add: sort_values_desc_def)

lemma sorted_sort_values_desc: "sorted_wrt (\<lambda>a b. snd b \<le> snd a) (sort_values_desc xs)"
proof -
  have "sorted (map (\<lambda>p. - snd p) (sort_values_desc xs))"
    unfolding sort_values_desc_def by (rule sorted_sort_key)
  then show ?thesis by (simp add: sorted_map)
qed



lemma sum_city_stats:
  "sum_list (map snd (city_stats_of rs)) = int (length (filter (\<lambda>r. city r \<noteq> None) rs))"
  by (simp add: city_stats_of_def sum_list_sort_values_desc sum_groupby_size)

section \<open>City totals (C3)\<close>

text \<open>
  C3, as the program has it. The per-city totals that the City Aggregator prints sum to the
  number of rows whose city is present; they sum to the number of all rows of the table
  when no row lacks its city.
\<close>

theorem city_totals_sum:
  assumes "City_totals stats \<in> set (fst (analyze_city_trends df))"
  shows "sum_list (map snd stats) = int (length (filter (\<lambda>r. city r \<noteq> None) (rows df))) \<and>
         ((\<forall>r\<in>set (rows df). city r \<noteq> None) \<longrightarrow>
            sum_list (map snd stats) = int (length (rows df)))"
proof -
  have "stats = city_stats_of (rows df)"
    using assms by (auto simp: analyze_city_trends_events split: if_splits)
  then have s: "sum_list (map snd stats) =
      int (length (filter (\<lambda>r. city r \<noteq> None) (rows df)))"
    by (simp add: sum_city_stats)
  have "filter (\<lambda>r. city r \<noteq> None) (rows df) = rows df"
    if "\<forall>r\<in>set (rows df). city r \<noteq> None"
    using that by (simp add: filter_id_conv)
  then show ?thesis using s by simp
qed

theorem city_totals_sum_witness:
  "City_totals [(''Dubai'', 9)] \<in> set (fst (analyze_city_trends week_table)) \<and>
   list_all (\<lambda>r. city r \<noteq> None) (rows week_table) \<and>
   sum_list (map snd [(''Dubai'', 9 :: int)]) = int (length (rows week_table))"
proof -
  have h1: "City_totals [(''Dubai'', 9)] \<in> set (fst (analyze_city_trends week_table))"
    by code_simp
  have h2: "\<forall>r\<in>set (rows week_table). city r \<noteq> None"
    by (simp add: week_table_def example_order_def)
  show ?thesis
    unfolding list_all_iff using city_totals_sum [OF h1] h1 h2 by blast
qed

text \<open>
  C3 as stated speaks of every loaded table. In a table of two rows of which one has no
  city, the totals sum to 1.
\<close>

theorem city_totals_sum_counterexample:
  "City_totals [(''Dubai'', 1)] \<in> set (fst (analyze_city_trends missing_table)) \<and>
   sum_list (map snd [(''Dubai'', 1 :: int)]) \<noteq> int (length (rows missing_table))"
  by code_simp

subsection \<open>Rounding\<close>

lemma round_half_even_near: "\<bar>of_int (round_half_even x) - x\<bar> \<le> 1 / 2"
proof -
  have lo: "of_int \<lfloor>x\<rfloor> \<le> x" and hi: "x < of_int \<lfloor>x\<rfloor> + 1"
    by linarith+
  consider "x - of_int \<lfloor>x\<rfloor> < 1 / 2" | "x - of_int \<lfloor>x\<rfloor> > 1 / 2"
    | "x - of_int \<lfloor>x\<rfloor> = 1 / 2" by linarith
  then show ?thesis
  proof cases
    case 1
    then have "round_half_even x = \<lfloor>x\<rfloor>" by (simp add: round_half_even_def Let_def)
    then show ?thesis using 1 lo by simp
  next
    case 2
    then have "round_half_even x = \<lfloor>x\<rfloor> + 1" by (simp add: round_half_even_def Let_def)
    then show ?thesis using 2 hi by simp
  next
    case 3
    then have "round_half_even x = \<lfloor>x\<rfloor> \<or> round_half_even x = \<lfloor>x\<rfloor> + 1"
      by (simp add: round_half_even_def Let_def)
    then show ?thesis using 3 by auto
  qed
qed

lemma round_to_near: "\<bar>round_to n x - x\<bar> \<le> 1 / (2 * 10 ^ n)"
proof -
  have pos: "(0::rat) < 10 ^ n" by simp
  have "round_to n x - x = (of_int (round_half_even (x * 10 ^ n)) - x * 10 ^ n) / 10 ^ n"
    by (simp add: round_to_def diff_divide_distrib)
  then have "\<bar>round_to n x - x\<bar> = \<bar>of_int (round_half_even (x * 10 ^ n)) - x * 10 ^ n\<bar> / 10 ^ n"
    by (simp add: abs_divide)
  also have "\<dots> \<le> (1 / 2) / 10 ^ n"
    using round_half_even_near [of "x * 10 ^ n"] pos by (intro divide_right_mono) simp_all
  finally show ?thesis by simp
qed

lemma round_to_one_decimal:
  "\<bar>round_to 1 x - x\<bar> \<le> 1 / 20 \<and> (\<exists>m::int. round_to 1 x = of_int m / 10)"
  using round_to_near [of 1 x] by (auto simp: round_to_def)

subsection \<open>Share lines\<close>


lemma share_lines_only_shares:
  "e \<in> set (share_lines df cnts) \<Longrightarrow> \<exists>k c p. e = Share k c p"
  by (auto simp: share_lines_def)






section \<open>Payment method shares (C4)\<close>




section \<open>Missing values in grouping columns (C10)\<close>







section \<open>Busiest days (C5)\<close>

lemma sorted_wrt_take_drop:
  assumes "sorted_wrt P xs" "x \<in> set (take n xs)" "y \<in> set (drop n xs)"
  shows "P x y"
proof -
  have "sorted_wrt P (take n xs @ drop n xs)" using assms(1) by simp
  then show ?thesis using assms(2,3) unfolding sorted_wrt_append by blast
qed

lemma nlargest_sorted: "sorted_wrt (\<lambda>a b. col b \<le> col a) (nlargest n col rs)"
proof -
  have "sorted (map (\<lambda>r. - col r) (sort_key (\<lambda>r. - col r) rs))"
    by (rule sorted_sort_key)
  then have "sorted_wrt (\<lambda>a b. col b \<le> col a) (sort_key (\<lambda>r. - col r) rs)"
    by (simp add: sorted_map)
  then show ?thesis
    unfolding nlargest_def by (rule sorted_wrt_take)
qed

lemma nlargest_subset: "set (nlargest n col rs) \<subseteq> set rs"
  using set_take_subset [of n "sort_key (\<lambda>r. - col r) rs"] by (simp add: nlargest_def)

lemma length_nlargest: "length (nlargest n col rs) = min n (length rs)"
  by (simp add: nlargest_def min.commute)

lemma nlargest_dominates:
  assumes "x \<in> set (nlargest n col rs)" "y \<in> set rs" "y \<notin> set (nlargest n col rs)"
  shows "col y \<le> col x"
proof -
  let ?s = "sort_key (\<lambda>r. - col r) rs"
  have "sorted (map (\<lambda>r. - col r) ?s)" by (rule sorted_sort_key)
  then have srt: "sorted_wrt (\<lambda>a b. col b \<le> col a) ?s"
    by (simp add: sorted_map)
  have "y \<in> set (take n ?s @ drop n ?s)" using assms(2) by simp
  then have "y \<in> set (drop n ?s)"
    using assms(3) unfolding nlargest_def set_append by blast
  then show ?thesis
    using sorted_wrt_take_drop [OF srt, of x n y] assms(1) by (simp add: nlargest_def)
qed

lemma distinct_nlargest:
  assumes "distinct (map f rs)"
  shows "distinct (map f (nlargest n col rs))"
proof -
  have "mset (map f (sort_key (\<lambda>r. - col r) rs)) = mset (map f rs)"
    by simp
  then have "distinct (map f (sort_key (\<lambda>r. - col r) rs))"
    using assms mset_eq_imp_distinct_iff by blast
  then show ?thesis
    unfolding nlargest_def take_map [symmetric] by (rule distinct_take)
qed

lemma distinct_daily_order_dates: "distinct (map d_order_date (daily_orders_of rs))"
proof -
  have "sorted_wrt (<) (map d_order_date (daily_orders_of rs))"
    unfolding daily_order_dates using sorted_groupby_size_keys [of order_date rs]
    by (simp add: sorted_wrt_map date_to_datetime_less)
  then show ?thesis by (simp add: strict_sorted_iff)
qed

text \<open>
  C5. The busiest days that the Daily Aggregator prints are five entries of the daily
  series, or all of them when the series has fewer than five, on distinct dates and with
  the largest count first. The count of every printed day is at least the count of every
  day of the series that is not printed. Nothing is claimed about which of several days
  with equal counts is printed.
\<close>

theorem busiest_days:
  assumes "snd (analyze_daily_trends df) = Inr (df', daily_orders)"
  shows "Top_days (map (\<lambda>r. (d_order_date r, d_order_count r)) (top_days daily_orders))
           \<in> set (fst (analyze_daily_trends df)) \<and>
         length (top_days daily_orders) = min 5 (length daily_orders) \<and>
         set (top_days daily_orders) \<subseteq> set daily_orders \<and>
         distinct (map d_order_date (top_days daily_orders)) \<and>
         sorted_wrt (\<lambda>a b. d_order_count b \<le> d_order_count a) (top_days daily_orders) \<and>
         (\<forall>x\<in>set (top_days daily_orders). \<forall>y\<in>set daily_orders.
            y \<notin> set (top_days daily_orders) \<longrightarrow> d_order_count y \<le> d_order_count x)"
proof -
  have col: "''order_date'' \<in> set (columns df)"
    and d: "daily_orders = daily_orders_of (rows df)"
    using assms by (auto simp: analyze_daily_trends_result split: if_splits)
  have printed: "Top_days (map (\<lambda>r. (d_order_date r, d_order_count r)) (top_days daily_orders))
           \<in> set (fst (analyze_daily_trends df))"
    using col by (simp add: analyze_daily_trends_events d)
  have "distinct (map d_order_date daily_orders)"
    using distinct_daily_order_dates [of "rows df"] by (simp add: d)
  then have dist: "distinct (map d_order_date (top_days daily_orders))"
    unfolding top_days_def by (rule distinct_nlargest)
  show ?thesis
    using printed dist nlargest_dominates [of _ 5 d_order_count daily_orders]
    by (auto simp: top_days_def length_nlargest nlargest_sorted dest: subsetD [OF nlargest_subset])
qed

theorem busiest_days_witness:
  "snd (analyze_daily_trends week_table) = Inr (week_table, daily_orders_of (rows week_table)) \<and>
   length (daily_orders_of (rows week_table)) = 8 \<and>
   length (top_days (daily_orders_of (rows week_table))) =
     min 5 (length (daily_orders_of (rows week_table))) \<and>
   map d_order_count (top_days (daily_orders_of (rows week_table))) = [2, 1, 1, 1, 1] \<and>
   list_all
     (\<lambda>x. list_all
        (\<lambda>y. y \<in> set (top_days (daily_orders_of (rows week_table))) \<or>
             d_order_count y \<le> d_order_count x)
        (daily_orders_of (rows week_table)))
     (top_days (daily_orders_of (rows week_table)))"
proof -
  have h1: "snd (analyze_daily_trends week_table) =
      Inr (week_table, daily_orders_of (rows week_table))"
    by (simp add: analyze_daily_trends_result week_table_def known_columns_def)
  have h2: "length (daily_orders_of (rows week_table)) = 8"
    by code_simp
  have h3: "map d_order_count (top_days (daily_orders_of (rows week_table))) = [2, 1, 1, 1, 1]"
    by code_simp
  show ?thesis
    unfolding list_all_iff using busiest_days [OF h1] h1 h2 h3 by blast
qed

section \<open>Average daily orders per city (C9)\<close>

lemma groupby_mean_keys: "map fst (groupby_mean key val rs) = sort (remdups (map key rs))"
  by (simp add: groupby_mean_def comp_def)

lemma groupby_mean_member:
  assumes "(k, m) \<in> set (groupby_mean key val rs)"
  shows "filter (\<lambda>r. key r = k) rs \<noteq> [] \<and>
         m = sum_list (map val (filter (\<lambda>r. key r = k) rs)) /
             of_nat (length (filter (\<lambda>r. key r = k) rs))"
proof -
  have "k \<in> set (map key rs)" and
    m: "m = sum_list (map val (filter (\<lambda>r. key r = k) rs)) /
            of_nat (length (filter (\<lambda>r. key r = k) rs))"
    using assms by (auto simp: groupby_mean_def)
  then obtain r where "r \<in> set rs" "key r = k" by auto
  then have "filter (\<lambda>r. key r = k) rs \<noteq> []"
    by (auto simp: filter_empty_conv)
  then show ?thesis using m by simp
qed

lemma sum_list_of_int: "sum_list (map (\<lambda>r. rat_of_int (f r)) xs) = of_int (sum_list (map f xs))"
  by (induction xs) simp_all

lemma avg_daily_city_member:
  assumes "(c, m) \<in> set (avg_daily_city_of city_trends)"
  shows "filter (\<lambda>r. c_city r = c) city_trends \<noteq> [] \<and>
         m = of_int (sum_list (map c_order_count (filter (\<lambda>r. c_city r = c) city_trends))) /
             of_nat (length (filter (\<lambda>r. c_city r = c) city_trends))"
proof -
  have "(c, m) \<in> set (groupby_mean c_city (\<lambda>r. of_int (c_order_count r)) city_trends)"
    using assms by (simp add: avg_daily_city_of_def set_sort_values_desc)
  from groupby_mean_member [OF this] show ?thesis
    unfolding sum_list_of_int .
qed

lemma avg_daily_city_keys:
  "set (map fst (avg_daily_city_of city_trends)) = c_city ` set city_trends \<and>
   distinct (map fst (avg_daily_city_of city_trends))"
proof -
  let ?g = "groupby_mean c_city (\<lambda>r. rat_of_int (c_order_count r)) city_trends"
  have m: "mset (map fst (avg_daily_city_of city_trends)) = mset (map fst ?g)"
    by (simp add: avg_daily_city_of_def sort_values_desc_def)
  have "distinct (map fst ?g)" and "set (map fst ?g) = c_city ` set city_trends"
    by (simp_all only: groupby_mean_keys distinct_sort distinct_remdups set_sort set_remdups set_map)
  then show ?thesis
    using m mset_eq_imp_distinct_iff mset_eq_setD by blast
qed

lemma date_city_Some:
  "date_city r = Some (d, c) \<longleftrightarrow> order_date r = Some d \<and> city r = Some c"
  by (simp add: date_city_def split: option.splits)

lemma city_trends_member:
  assumes "x \<in> set (city_trends_of rs)"
  shows "c_order_count x =
     int (length (filter (\<lambda>r. map_option date_to_datetime (order_date r) = Some (c_order_date x) \<and>
                              city r = Some (c_city x)) rs))"
proof -
  obtain d c n where g: "((d, c), n) \<in> set (groupby_size date_city rs)"
    and x: "x = \<lparr>c_order_date = date_to_datetime d, c_city = c, c_order_count = n\<rparr>"
    using assms by (auto simp: city_trends_of_def)
  have n: "n = int (length (filter (\<lambda>r. date_city r = Some (d, c)) rs))"
    using g by (auto simp: groupby_size_def)
  have "filter (\<lambda>r. date_city r = Some (d, c)) rs =
        filter (\<lambda>r. map_option date_to_datetime (order_date r) = Some (c_order_date x) \<and>
                    city r = Some (c_city x)) rs"
    by (rule filter_cong) (auto simp: x date_city_Some date_to_datetime_inj)
  then show ?thesis using n x by simp
qed

lemma city_trends_distinct:
  "distinct (map (\<lambda>r. (c_order_date r, c_city r)) (city_trends_of rs))"
proof -
  have "map (\<lambda>r. (c_order_date r, c_city r)) (city_trends_of rs) =
        map (\<lambda>k. (date_to_datetime (fst k), snd k)) (map fst (groupby_size date_city rs))"
    by (simp add: city_trends_of_def comp_def)
  moreover have "inj (\<lambda>k :: date \<times> string. (date_to_datetime (fst k), snd k))"
    by (auto simp: inj_def date_to_datetime_inj)
  ultimately show ?thesis
    using distinct_groupby_size_keys [of date_city rs]
    by (simp only: distinct_map) (auto intro: inj_on_subset)
qed

text \<open>
  C9. The City Aggregator prints, for each city of the (date, city) series, the arithmetic
  mean of the city's per-date order counts in that series, rounded to one decimal, the
  cities ordered by the mean, largest first. The (date, city) series has one entry per
  date and city, which counts the rows of that date and city.
\<close>

theorem city_daily_average:
  assumes "snd (analyze_city_trends df) = Inr (df', city_trends)"
  shows "City_averages (map (\<lambda>p. (fst p, round_to 1 (snd p))) (avg_daily_city_of city_trends))
           \<in> set (fst (analyze_city_trends df)) \<and>
         (\<forall>c m. (c, m) \<in> set (avg_daily_city_of city_trends) \<longrightarrow>
            filter (\<lambda>r. c_city r = c) city_trends \<noteq> [] \<and>
            m = of_int (sum_list (map c_order_count (filter (\<lambda>r. c_city r = c) city_trends))) /
                of_nat (length (filter (\<lambda>r. c_city r = c) city_trends)) \<and>
            \<bar>round_to 1 m - m\<bar> \<le> 1 / 20 \<and> (\<exists>t::int. round_to 1 m = of_int t / 10)) \<and>
         sorted_wrt (\<lambda>a b. snd b \<le> snd a) (avg_daily_city_of city_trends) \<and>
         set (map fst (avg_daily_city_of city_trends)) = c_city ` set city_trends \<and>
         distinct (map fst (avg_daily_city_of city_trends)) \<and>
         distinct (map (\<lambda>r. (c_order_date r, c_city r)) city_trends) \<and>
         (\<forall>x\<in>set city_trends.
            c_order_count x =
              int (length (filter (\<lambda>r. map_option date_to_datetime (order_date r) =
                                          Some (c_order_date x) \<and>
                                        city r = Some (c_city x)) (rows df))))"
proof -
  have cols: "''city'' \<in> set (columns df)" "''order_date'' \<in> set (columns df)"
    and ct: "city_trends = city_trends_of (rows df)"
    using assms by (auto simp: analyze_city_trends_result split: if_splits)
  have a: "City_averages (map (\<lambda>p. (fst p, round_to 1 (snd p))) (avg_daily_city_of city_trends))
           \<in> set (fst (analyze_city_trends df))"
    using cols by (simp add: analyze_city_trends_events ct)
  have b: "filter (\<lambda>r. c_city r = c) city_trends \<noteq> [] \<and>
            m = of_int (sum_list (map c_order_count (filter (\<lambda>r. c_city r = c) city_trends))) /
                of_nat (length (filter (\<lambda>r. c_city r = c) city_trends)) \<and>
            \<bar>round_to 1 m - m\<bar> \<le> 1 / 20 \<and> (\<exists>t::int. round_to 1 m = of_int t / 10)"
    if "(c, m) \<in> set (avg_daily_city_of city_trends)" for c m
    using avg_daily_city_member [OF that] round_to_one_decimal [of m] by blast
  have c: "sorted_wrt (\<lambda>a b. snd b \<le> snd a) (avg_daily_city_of city_trends)"
    unfolding avg_daily_city_of_def by (rule sorted_sort_values_desc)
  have d: "distinct (map (\<lambda>r. (c_order_date r, c_city r)) city_trends)"
    unfolding ct by (rule city_trends_distinct)
  have e: "c_order_count x =
              int (length (filter (\<lambda>r. map_option date_to_datetime (order_date r) =
                                          Some (c_order_date x) \<and>
                                        city r = Some (c_city x)) (rows df)))"
    if "x \<in> set city_trends" for x
    using that unfolding ct by (rule city_trends_member)
  show ?thesis
    using a b c d e avg_daily_city_keys [of city_trends] by blast
qed

theorem city_daily_average_witness:
  "snd (analyze_city_trends city_table) = Inr (city_table, city_trends_of (rows city_table)) \<and>
   avg_daily_city_of (city_trends_of (rows city_table)) = [(''Dubai'', 4 / 3), (''Ajman'', 1)] \<and>
   City_averages [(''Dubai'', 13 / 10), (''Ajman'', 1)]
     \<in> set (fst (analyze_city_trends city_table)) \<and>
   (4 / 3 :: rat) =
     of_int (sum_list (map c_order_count
               (filter (\<lambda>r. c_city r = ''Dubai'') (city_trends_of (rows city_table))))) /
     of_nat (length (filter (\<lambda>r. c_city r = ''Dubai'') (city_trends_of (rows city_table)))) \<and>
   sorted_wrt (\<lambda>a b. snd b \<le> snd a) (avg_daily_city_of (city_trends_of (rows city_table)))"
proof -
  have h1: "snd (analyze_city_trends city_table) =
      Inr (city_table, city_trends_of (rows city_table))"
    by (simp add: analyze_city_trends_result city_table_def known_columns_def)
  have h2: "avg_daily_city_of (city_trends_of (rows city_table)) =
      [(''Dubai'', 4 / 3), (''Ajman'', 1)]"
    by code_simp
  have h3: "City_averages [(''Dubai'', 13 / 10), (''Ajman'', 1)]
     \<in> set (fst (analyze_city_trends city_table))"
    by code_simp
  have h4: "(''Dubai'', 4 / 3) \<in> set (avg_daily_city_of (city_trends_of (rows city_table)))"
    by (simp add: h2)
  show ?thesis
    using city_daily_average [OF h1] h1 h2 h3 h4 by blast
qed

subsection \<open>The loader and the pipeline\<close>

lemma fst_bind_run:
  "fst (bind_run m f) = (case snd m of Inl e \<Rightarrow> fst m | Inr x \<Rightarrow> fst m @ fst (f x))"
  by (cases m) (simp add: bind_run_def split: sum.splits prod.splits)

lemma snd_bind_run:
  "snd (bind_run m f) = (case snd m of Inl e \<Rightarrow> Inl e | Inr x \<Rightarrow> snd (f x))"
  by (cases m) (simp add: bind_run_def split: sum.splits prod.splits)

lemma bind_run_eq:
  "bind_run m f =
     (case snd m of Inl e \<Rightarrow> (fst m, Inl e) | Inr x \<Rightarrow> (fst m @ fst (f x), snd (f x)))"
  by (cases m) (simp add: bind_run_def split: sum.splits prod.splits)

lemma load_and_prepare_data_result:
  "snd (load_and_prepare_data w parse file_path) =
     (case files w file_path of
        None \<Rightarrow> Inl (FileNotFoundError file_path)
      | Some raw \<Rightarrow>
          if ''order_datetime'' \<in> set (columns raw)
          then (case prepare_rows parse (rows raw) of
                  Inl e \<Rightarrow> Inl e
                | Inr rs \<Rightarrow>
                    Inr \<lparr>columns = (if ''order_date'' \<in> set (columns raw) then columns raw
                                      else columns raw @ [''order_date'']),
                         rows = rs\<rparr>)
          else Inl (KeyError ''order_datetime''))"
  by (simp add: load_and_prepare_data_def read_csv_def bind_run_eq say_def raise_def
      return_def need_column_def Let_def split: option.splits sum.splits)


lemma dt_date_bounds:
  "date_to_datetime (dt_date t) \<le> t \<and> t < date_to_datetime (dt_date t + 1)"
proof -
  have pos: "0 < ns_per_day" by (simp add: ns_per_day_def)
  have eq: "ns_per_day * (t div ns_per_day) + t mod ns_per_day = t"
    by (rule mult_div_mod_eq)
  have "0 \<le> t mod ns_per_day" and "t mod ns_per_day < ns_per_day"
    using pos by simp_all
  then have "ns_per_day * (t div ns_per_day) \<le> t"
    and "t < ns_per_day * (t div ns_per_day) + ns_per_day"
    using eq by linarith+
  then show ?thesis by (simp add: date_to_datetime_def dt_date_def algebra_simps)
qed

lemma explore_data_result: "snd (explore_data df) = Inr df1 \<Longrightarrow> df1 = df"
  by (auto simp: explore_data_def run_simps return_def split: if_splits)

lemma main_cases:
  "main w parse =
     (let start = [Heading ''TALABAT UAE ORDERS DATA ANALYSIS'', Started_at (clock_start w)];
          l = load_and_prepare_data w parse ''talabat_uae_orders_dataset.csv''
      in case snd l of
           Inl e \<Rightarrow> (start @ fst l, Inl e)
         | Inr df \<Rightarrow>
     (let x = explore_data df
      in case snd x of
           Inl e \<Rightarrow> (start @ fst l @ fst x, Inl e)
         | Inr df1 \<Rightarrow>
     (let d = analyze_daily_trends df1
      in case snd d of
           Inl e \<Rightarrow> (start @ fst l @ fst x @ fst d, Inl e)
         | Inr dd \<Rightarrow>
     (let c = analyze_city_trends (fst dd)
      in case snd c of
           Inl e \<Rightarrow> (start @ fst l @ fst x @ fst d @ fst c, Inl e)
         | Inr cc \<Rightarrow>
     (let v = create_visualizations w (snd dd) (snd cc)
      in case snd v of
           Inl e \<Rightarrow> (start @ fst l @ fst x @ fst d @ fst c @ fst v, Inl e)
         | Inr u \<Rightarrow>
     (let b = analyze_business_insights (fst cc)
      in case snd b of
           Inl e \<Rightarrow> (start @ fst l @ fst x @ fst d @ fst c @ fst v @ fst b, Inl e)
         | Inr df4 \<Rightarrow>
             (start @ fst l @ fst x @ fst d @ fst c @ fst v @ fst b @
              [Heading ''ANALYSIS COMPLETED'',
               Generated_files [''daily_orders_trend.png'', ''city_trends.png''],
               Completed_at (clock_end w)], Inr df4)))))))"
  by (simp add: main_def bind_run_eq say_def return_def Let_def split: sum.splits prod.splits)

section \<open>The derived date (C6)\<close>

lemma prepare_rows_dates:
  "prepare_rows parse rs = Inr rs' \<Longrightarrow>
   \<forall>r\<in>set rs'. order_date r = map_option dt_date (order_datetime r)"
proof (induction rs arbitrary: rs')
  case Nil
  then show ?case by simp
next
  case (Cons r rs)
  then show ?case
    by (auto simp: prepare_row_def split: sum.splits)
qed

lemma main_result:
  assumes "snd (main w parse) = Inr dfm"
  shows "snd (load_and_prepare_data w parse ''talabat_uae_orders_dataset.csv'') = Inr dfm"
proof -
  let ?l = "load_and_prepare_data w parse ''talabat_uae_orders_dataset.csv''"
  obtain df where l: "snd ?l = Inr df"
    using assms unfolding main_cases Let_def by (cases "snd ?l") simp_all
  obtain df1 where x: "snd (explore_data df) = Inr df1"
    using assms l unfolding main_cases Let_def by (cases "snd (explore_data df)") simp_all
  have df1: "df1 = df" using x by (rule explore_data_result)
  obtain dd where d: "snd (analyze_daily_trends df) = Inr dd"
    using assms l x df1 unfolding main_cases Let_def
    by (cases "snd (analyze_daily_trends df)") simp_all
  have dd: "fst dd = df"
    using d by (cases dd) (auto simp: analyze_daily_trends_result split: if_splits)
  obtain cc where c: "snd (analyze_city_trends df) = Inr cc"
    using assms l x df1 d dd unfolding main_cases Let_def
    by (cases "snd (analyze_city_trends df)") simp_all
  have cc: "fst cc = df"
    using c by (cases cc) (auto simp: analyze_city_trends_result split: if_splits)
  obtain u where v: "snd (create_visualizations w (snd dd) (snd cc)) = Inr u"
    using assms l x df1 d dd c cc unfolding main_cases Let_def
    by (cases "snd (create_visualizations w (snd dd) (snd cc))") simp_all
  have "snd (analyze_business_insights df) = Inr dfm"
    using assms l x df1 d dd c cc v unfolding main_cases Let_def
    by (cases "snd (analyze_business_insights df)") simp_all
  then have "dfm = df" by (simp add: analyze_business_insights_result)
  then show ?thesis using l by simp
qed

text \<open>
  C6. In every row of the table that the Loader returns, the derived date is the day on
  which the time of the order falls: the time lies between midnight of that day and
  midnight of the next; a row without a time has no date. Every later stage leaves the
  table it receives as it is, and the table at the end of a run is the one the Loader
  returned.
\<close>

theorem order_date_invariant:
  assumes "snd (load_and_prepare_data w parse file_path) = Inr df"
  shows "(\<forall>r\<in>set (rows df).
            order_date r = map_option dt_date (order_datetime r) \<and>
            (\<forall>t. order_datetime r = Some t \<longrightarrow>
               (\<exists>d. order_date r = Some d \<and> date_to_datetime d \<le> t \<and>
                    t < date_to_datetime (d + 1)))) \<and>
         (\<forall>df1. snd (explore_data df) = Inr df1 \<longrightarrow> df1 = df) \<and>
         (\<forall>df1 x. snd (analyze_daily_trends df) = Inr (df1, x) \<longrightarrow> df1 = df) \<and>
         (\<forall>df1 x. snd (analyze_city_trends df) = Inr (df1, x) \<longrightarrow> df1 = df) \<and>
         (\<forall>df1. snd (analyze_business_insights df) = Inr df1 \<longrightarrow> df1 = df) \<and>
         (file_path = dataset \<longrightarrow> (\<forall>dfm. snd (main w parse) = Inr dfm \<longrightarrow> dfm = df))"
proof -
  obtain raw :: "csv_row frame" where "prepare_rows parse (rows raw) = Inr (rows df)"
    using assms unfolding load_and_prepare_data_result
    by (auto split: option.splits if_splits sum.splits)
  then have inv: "\<forall>r\<in>set (rows df). order_date r = map_option dt_date (order_datetime r)"
    by (rule prepare_rows_dates)
  have a: "order_date r = map_option dt_date (order_datetime r) \<and>
            (\<forall>t. order_datetime r = Some t \<longrightarrow>
               (\<exists>d. order_date r = Some d \<and> date_to_datetime d \<le> t \<and>
                    t < date_to_datetime (d + 1)))"
    if "r \<in> set (rows df)" for r
    using inv that dt_date_bounds by auto
  have b: "df1 = df" if "snd (analyze_daily_trends df) = Inr (df1, x)" for df1 x
    using that by (auto simp: analyze_daily_trends_result split: if_splits)
  have c: "df1 = df" if "snd (analyze_city_trends df) = Inr (df1, x)" for df1 x
    using that by (auto simp: analyze_city_trends_result split: if_splits)
  have d: "df1 = df" if "snd (analyze_business_insights df) = Inr df1" for df1
    using that by (simp add: analyze_business_insights_result)
  have e: "dfm = df" if "file_path = dataset" "snd (main w parse) = Inr dfm" for dfm
    using main_result [OF that(2)] assms that(1) by (simp add: dataset_def)
  show ?thesis
    using a b c d e explore_data_result by blast
qed

theorem order_date_invariant_witness:
  "snd (load_and_prepare_data example_world example_parse dataset) =
     Inr \<lparr>columns = csv_columns @ [''order_date''],
          rows = [prepare_row (example_csv_row ''1970-01-01 01:00:00'' ''Dubai'')
                    (Some 3600000000000),
                  prepare_row (example_csv_row ''1970-01-03 00:00:01'' ''Ajman'')
                    (Some 172801000000000)]\<rparr> \<and>
   map order_date
     [prepare_row (example_csv_row ''1970-01-01 01:00:00'' ''Dubai'') (Some 3600000000000),
      prepare_row (example_csv_row ''1970-01-03 00:00:01'' ''Ajman'') (Some 172801000000000)] =
     [Some 0, Some 2] \<and>
   list_all (\<lambda>r. order_date r = map_option dt_date (order_datetime r))
     [prepare_row (example_csv_row ''1970-01-01 01:00:00'' ''Dubai'') (Some 3600000000000),
      prepare_row (example_csv_row ''1970-01-03 00:00:01'' ''Ajman'') (Some 172801000000000)] \<and>
   snd (main example_world example_parse) =
     snd (load_and_prepare_data example_world example_parse dataset)"
proof -
  define df where "df = \<lparr>columns = csv_columns @ [''order_date''],
      rows = [prepare_row (example_csv_row ''1970-01-01 01:00:00'' ''Dubai'') (Some 3600000000000),
              prepare_row (example_csv_row ''1970-01-03 00:00:01'' ''Ajman'')
                (Some 172801000000000)]\<rparr>"
  have h1: "snd (load_and_prepare_data example_world example_parse dataset) = Inr df"
    unfolding df_def by code_simp
  have h2: "snd (main example_world example_parse) = Inr df"
    unfolding df_def by code_simp
  have h3: "map order_date (rows df) = [Some 0, Some 2]"
    unfolding df_def by code_simp
  have r: "rows df =
      [prepare_row (example_csv_row ''1970-01-01 01:00:00'' ''Dubai'') (Some 3600000000000),
       prepare_row (example_csv_row ''1970-01-03 00:00:01'' ''Ajman'') (Some 172801000000000)]"
    by (simp add: df_def)
  have "\<forall>r\<in>set (rows df). order_date r = map_option dt_date (order_datetime r)"
    using order_date_invariant [OF h1] by blast
  then have inv: "list_all (\<lambda>r. order_date r = map_option dt_date (order_datetime r)) (rows df)"
    by (simp only: list_all_iff)
  show ?thesis
    using h1 h2 h3 inv unfolding r by (simp add: df_def)
qed

section \<open>Repeated runs (C7)\<close>









section \<open>Errors end the run (C8)\<close>
















end
